theory Spec2Isabelle
  imports Complex_Main "HOL-Library.Word" "HOL-Library.Log_Nat"
begin

section \<open>Route-label normalisation\<close>

text \<open>
  The middleware of \<^verbatim>\<open>services/booking-service/src/middleware/metrics.js\<close> normalises
  the route label with
  \<^verbatim>\<open>route.replace(/\/[a-f0-9]{24}/gi, '/:id')\<close>.
  The character class \<^verbatim>\<open>[a-f0-9]\<close> under the flag \<^verbatim>\<open>i\<close> accepts the decimal digits and the
  letters a to f in either case.
\<close>

definition hex_char :: "char \<Rightarrow> bool" where
  "hex_char c = (c \<in> set ''0123456789abcdefABCDEF'')"

text \<open>
  One attempt of the pattern \<^verbatim>\<open>\/[a-f0-9]{24}\<close> at the head of the remaining input: a slash
  followed by 24 characters of the class.
\<close>

fun id_match :: "string \<Rightarrow> bool" where
  "id_match [] = False"
| "id_match (c # cs) = (c = CHR ''/'' \<and> 24 \<le> length cs \<and> list_all hex_char (take 24 cs))"

text \<open>
  The flag \<^verbatim>\<open>g\<close> makes \<^verbatim>\<open>replace\<close> scan from left to right: where the pattern matches,
  the 25 matched characters are replaced by \<^verbatim>\<open>/:id\<close> and the scan resumes after the match;
  elsewhere the character is copied and the scan moves one position on.
\<close>

fun normalizedRoute :: "string \<Rightarrow> string" where
  "normalizedRoute [] = []"
| "normalizedRoute (c # cs) =
     (if id_match (c # cs) then ''/:id'' @ normalizedRoute (drop 24 cs)
      else c # normalizedRoute cs)"

text \<open>
  The reading of the claim about normalisation: the segments of a path are the substrings
  between its slashes, and an identifier segment is one of exactly 24 hexadecimal
  characters. These two definitions follow the specification's words; the code has no
  notion of a segment.
\<close>

fun segments :: "string \<Rightarrow> string list" where
  "segments [] = [[]]"
| "segments (c # cs) =
     (if c = CHR ''/'' then [] # segments cs
      else (case segments cs of [] \<Rightarrow> [[c]] | s # ss \<Rightarrow> (c # s) # ss))"

definition id_segment :: "string \<Rightarrow> bool" where
  "id_segment s = (length s = 24 \<and> list_all hex_char s)"

text \<open>
  What the code has instead: whether the pattern matches anywhere in the input, that is,
  whether some slash of the input is followed by 24 hexadecimal characters.
\<close>

fun has_id_match :: "string \<Rightarrow> bool" where
  "has_id_match [] = False"
| "has_id_match (c # cs) = (id_match (c # cs) \<or> has_id_match cs)"

section \<open>Requests, responses and label sets\<close>

text \<open>
  The value of \<^verbatim>\<open>req.route.path\<close>. Express keeps the path a route was registered with as
  it was given: a string, a regular expression (kept here by its source text) or an array
  of such.
\<close>

datatype pattern = Str string | RegExp string | Array "pattern list"

text \<open>
  What the middleware reads of an Express request: \<^verbatim>\<open>req.method\<close>, \<^verbatim>\<open>req.route?.path\<close>
  (\<open>None\<close> when no route matched, so that \<^verbatim>\<open>req.route\<close> is undefined) and \<^verbatim>\<open>req.path\<close>,
  a string when present.
\<close>

record request =
  req_method :: string
  req_route :: "pattern option"
  req_path :: "string option"

text \<open>
  The closure passed to \<^verbatim>\<open>res.on('finish', ...)\<close>. It captures \<^verbatim>\<open>start\<close>, a reading of
  \<^verbatim>\<open>process.hrtime.bigint()\<close>: a count of nanoseconds that the runtime keeps in an unsigned
  64-bit integer. It refers to \<^verbatim>\<open>req\<close> and \<^verbatim>\<open>res\<close>, which it reads when it runs.
\<close>

datatype listener = RecordMetrics "64 word"

record response =
  statusCode :: nat
  headers :: "string \<rightharpoonup> string"
  body :: string
  headersSent :: bool
  finishListeners :: "listener list"

text \<open>The label set \<^verbatim>\<open>{method, route, status}\<close> of both instruments.\<close>

record labels =
  lbl_method :: string
  lbl_route :: string
  lbl_status :: string

datatype error =
    TypeError string
  | ERR_HTTP_HEADERS_SENT
  | Rejected string

text \<open>
  \<^verbatim>\<open>a || d\<close>: JavaScript takes \<^verbatim>\<open>d\<close> when \<^verbatim>\<open>a\<close> is falsy. \<^verbatim>\<open>undefined\<close> and the empty
  string are falsy; every object, so every regular expression and every array, is truthy.
\<close>

fun js_or :: "pattern option \<Rightarrow> pattern \<Rightarrow> pattern" where
  "js_or None d = d"
| "js_or (Some (Str s)) d = (if s = [] then d else Str s)"
| "js_or (Some (RegExp r)) d = RegExp r"
| "js_or (Some (Array ps)) d = Array ps"

text \<open>Line 46: \<^verbatim>\<open>const route = req.route?.path || req.path || 'unknown'\<close>.\<close>

definition routeLabel :: "request \<Rightarrow> pattern" where
  "routeLabel rq =
     js_or (req_route rq) (js_or (map_option Str (req_path rq)) (Str ''unknown''))"

text \<open>
  The fallback as the specification words it: the matched pattern when there is one, else
  the raw path when there is one, else \<^verbatim>\<open>unknown\<close>.
\<close>

definition routeLabel_spec :: "request \<Rightarrow> pattern" where
  "routeLabel_spec rq =
     (case req_route rq of
        Some r \<Rightarrow> r
      | None \<Rightarrow> (case req_path rq of Some p \<Rightarrow> Str p | None \<Rightarrow> Str ''unknown''))"

text \<open>
  Line 47: \<^verbatim>\<open>route.replace(/\/[a-f0-9]{24}/gi, '/:id')\<close>. Only strings have the method
  \<^verbatim>\<open>replace\<close>: on a regular expression or an array the property is undefined and the call
  throws a TypeError.
\<close>

fun replace :: "pattern \<Rightarrow> error + string" where
  "replace (Str s) = Inr (normalizedRoute s)"
| "replace (RegExp r) = Inl (TypeError ''route.replace is not a function'')"
| "replace (Array ps) = Inl (TypeError ''route.replace is not a function'')"

text \<open>\<^verbatim>\<open>res.statusCode.toString()\<close>: the decimal digits of the status code.\<close>

fun toString :: "nat \<Rightarrow> string" where
  "toString n =
     (if n < 10 then [''0123456789'' ! n]
      else toString (n div 10) @ [''0123456789'' ! (n mod 10)])"

declare toString.simps [simp del]

text \<open>
  Lines 46 to 53: the label set of a completed request, or the exception of line 47.
\<close>

definition labelsOf :: "request \<Rightarrow> response \<Rightarrow> error + labels" where
  "labelsOf rq rs =
     (case replace (routeLabel rq) of
        Inl e \<Rightarrow> Inl e
      | Inr normalized \<Rightarrow>
          Inr \<lparr>lbl_method = req_method rq,
               lbl_route = normalized,
               lbl_status = toString (statusCode rs)\<rparr>)"

section \<open>Double-precision numbers\<close>

text \<open>
  JavaScript numbers are IEEE 754 binary64 values. A finite one is a rational number
  \<open>m * 2\<^sup>e\<close> with a mantissa \<open>m\<close> of at most 53 bits; conversions and arithmetic round the
  exact result to the nearest such number, a tie going to the even mantissa.
\<close>

definition roundTiesToEven :: "rat \<Rightarrow> int" where
  "roundTiesToEven y =
     (let f = \<lfloor>y\<rfloor>; r = y - of_int f in
      if r < 1 / 2 then f
      else if 1 / 2 < r then f + 1
      else if even f then f else f + 1)"

text \<open>
  The binade of a positive rational \<open>x\<close>: the exponent \<open>e\<close> with \<open>2\<^sup>e \<le> x < 2\<^sup>e\<^sup>+\<^sup>1\<close>. It is
  the difference of the bit lengths of numerator and denominator, or one less.
\<close>

definition binade :: "rat \<Rightarrow> int" where
  "binade x =
     (let (p, q) = quotient_of x; d = bitlen p - bitlen q in
      if 2 powi d \<le> x then d else d - 1)"

text \<open>
  Rounding to binary64 in its normal range, \<open>2\<^sup>-\<^sup>1\<^sup>0\<^sup>2\<^sup>2 \<le> \<bar>x\<bar> < 2\<^sup>1\<^sup>0\<^sup>2\<^sup>4\<close>: the mantissa is
  \<open>\<bar>x\<bar>\<close> scaled into \<open>[2\<^sup>5\<^sup>2, 2\<^sup>5\<^sup>3)\<close> and rounded to an integer. The numbers rounded below are
  differences of 64-bit clock readings and their quotients by \<open>10\<^sup>9\<close>: zero, or of a
  magnitude between \<open>10\<^sup>-\<^sup>9\<close> and \<open>2\<^sup>6\<^sup>4\<close>, well inside that range.
\<close>

definition toDouble :: "rat \<Rightarrow> rat" where
  "toDouble x =
     (if x = 0 then 0
      else (let u = 2 powi (binade \<bar>x\<bar> - 52) in
            sgn x * of_int (roundTiesToEven (\<bar>x\<bar> / u)) * u))"

text \<open>
  Lines 42 and 43: \<^verbatim>\<open>Number(end - start) / 1e9\<close>. The difference of the two readings is an
  exact BigInt; \<^verbatim>\<open>Number\<close> rounds it to a double, and the division by the double \<^verbatim>\<open>1e9\<close>,
  which is exactly \<open>10\<^sup>9\<close>, rounds the quotient to a double.
\<close>

definition durationInSeconds :: "64 word \<Rightarrow> 64 word \<Rightarrow> rat" where
  "durationInSeconds start finish =
     toDouble (toDouble (of_int (uint finish - uint start)) / 1000000000)"

section \<open>The instruments\<close>

text \<open>
  The state of the module's two instruments, \<^verbatim>\<open>httpRequestDuration\<close> (lines 19 to 24) and
  \<^verbatim>\<open>httpRequestsTotal\<close> (lines 28 to 32). The histogram is kept as the sequence of its
  observations, the counter as a count for each label set (zero before the first
  increment).
\<close>

record recorder =
  httpRequestDuration :: "(labels \<times> rat) list"
  httpRequestsTotal :: "labels \<Rightarrow> nat"

text \<open>
  Modelled from the spec: \<^verbatim>\<open>Histogram.observe\<close> and \<^verbatim>\<open>Counter.inc\<close> of \<^verbatim>\<open>prom-client\<close>,
  which are not in the repository. An observation is recorded under its label set; an
  increment adds one to the count of its label set.
\<close>

definition observe :: "labels \<Rightarrow> rat \<Rightarrow> (labels \<times> rat) list \<Rightarrow> (labels \<times> rat) list" where
  "observe l v h = h @ [(l, v)]"

definition inc :: "labels \<Rightarrow> (labels \<Rightarrow> nat) \<Rightarrow> (labels \<Rightarrow> nat)" where
  "inc l c = c(l := c l + 1)"

text \<open>
  What the scrape handler takes from the metrics library \<^verbatim>\<open>prom-client\<close>, which the
  repository does not contain: the string \<^verbatim>\<open>register.contentType\<close>, and what the promise
  of \<^verbatim>\<open>register.metrics()\<close> settles to, a text or a rejection. They are parameters of the
  model.
\<close>

record prom_client =
  contentType :: string
  metrics :: "recorder \<Rightarrow> error + string"

section \<open>The middleware and the scrape handler\<close>

text \<open>
  The state a handler can touch: the request and the response it was given, the module's
  recorder, and how often it called \<^verbatim>\<open>next()\<close>. A callback ends in a state and, when it
  threw, an exception.
\<close>

record world =
  req :: request
  res :: response
  recorder :: recorder
  nextCalls :: nat

type_synonym outcome = "world \<times> error option"

text \<open>
  Lines 38 to 60. The middleware reads the clock, registers the listener on the response
  and calls \<^verbatim>\<open>next()\<close> without an argument.
\<close>

definition metricsMiddleware :: "64 word \<Rightarrow> world \<Rightarrow> world" where
  "metricsMiddleware start w =
     w\<lparr>res := (res w)\<lparr>finishListeners := finishListeners (res w) @ [RecordMetrics start]\<rparr>,
       nextCalls := nextCalls w + 1\<rparr>"

text \<open>
  Lines 41 to 57: the body of the listener, run with the clock reading \<open>finish\<close> on the
  request and the response as they are when the response completes. The exception of line
  47 leaves the listener before \<^verbatim>\<open>observe\<close> and \<^verbatim>\<open>inc\<close> are reached.
\<close>

definition onFinish :: "64 word \<Rightarrow> 64 word \<Rightarrow> world \<Rightarrow> outcome" where
  "onFinish start finish w =
     (case labelsOf (req w) (res w) of
        Inl e \<Rightarrow> (w, Some e)
      | Inr l \<Rightarrow>
          (let rc = recorder w in
           (w\<lparr>recorder :=
               rc\<lparr>httpRequestDuration :=
                     observe l (durationInSeconds start finish) (httpRequestDuration rc),
                  httpRequestsTotal := inc l (httpRequestsTotal rc)\<rparr>\<rparr>,
            None)))"

text \<open>
  The event \<^verbatim>\<open>finish\<close> of a response: Node calls the registered listeners once each, in
  the order of their registration, and the \<open>k\<close>-th listener reads the clock as \<open>hrtime k\<close>.
  An exception thrown by a listener leaves \<^verbatim>\<open>emit\<close>: the listeners after it are not
  called, and nothing in this module catches it.
\<close>

fun emitFinish :: "(nat \<Rightarrow> 64 word) \<Rightarrow> nat \<Rightarrow> listener list \<Rightarrow> world \<Rightarrow> outcome" where
  "emitFinish hrtime k [] w = (w, None)"
| "emitFinish hrtime k (RecordMetrics start # ls) w =
     (case onFinish start (hrtime k) w of
        (w', Some e) \<Rightarrow> (w', Some e)
      | (w', None) \<Rightarrow> emitFinish hrtime (Suc k) ls w')"

definition responseFinished :: "(nat \<Rightarrow> 64 word) \<Rightarrow> world \<Rightarrow> outcome" where
  "responseFinished hrtime w = emitFinish hrtime 0 (finishListeners (res w)) w"

text \<open>
  Lines 65 to 68: \<^verbatim>\<open>res.set('Content-Type', register.contentType)\<close>, then
  \<^verbatim>\<open>res.end(await register.metrics())\<close>. Setting a header after the headers were sent
  throws \<^verbatim>\<open>ERR_HTTP_HEADERS_SENT\<close>; a rejection of \<^verbatim>\<open>register.metrics()\<close> leaves the
  handler at the \<^verbatim>\<open>await\<close>, after the header was set and before the response is ended.
  Neither the handler nor the instruments change the recorder.
\<close>

definition metricsHandler :: "prom_client \<Rightarrow> world \<Rightarrow> outcome" where
  "metricsHandler lib w =
     (if headersSent (res w) then (w, Some ERR_HTTP_HEADERS_SENT)
      else
        (let w1 = w\<lparr>res := (res w)\<lparr>headers :=
                         (headers (res w))(''Content-Type'' \<mapsto> contentType lib)\<rparr>\<rparr>
         in case metrics lib (recorder w) of
              Inl e \<Rightarrow> (w1, Some e)
            | Inr exposition \<Rightarrow>
                (w1\<lparr>res := (res w1)\<lparr>body := body (res w1) @ exposition, headersSent := True\<rparr>\<rparr>,
                 None)))"

text \<open>
  The operations of the module as events on its recorder. JavaScript runs each callback to
  completion before the next one starts, so that requests in flight at the same time
  reach the recorder as a sequence of these events, in any order.
\<close>

datatype event =
    RequestStarted "64 word" request response
  | RequestCompleted "64 word" "64 word" request response
  | Scrape request response

fun step :: "prom_client \<Rightarrow> event \<Rightarrow> recorder \<Rightarrow> recorder" where
  "step lib (RequestStarted start rq rs) rc =
     recorder (metricsMiddleware start \<lparr>req = rq, res = rs, recorder = rc, nextCalls = 0\<rparr>)"
| "step lib (RequestCompleted start finish rq rs) rc =
     recorder (fst (onFinish start finish
                      \<lparr>req = rq, res = rs, recorder = rc, nextCalls = 0\<rparr>))"
| "step lib (Scrape rq rs) rc =
     recorder (fst (metricsHandler lib \<lparr>req = rq, res = rs, recorder = rc, nextCalls = 0\<rparr>))"

definition run :: "prom_client \<Rightarrow> event list \<Rightarrow> recorder \<Rightarrow> recorder" where
  "run lib evs rc = fold (step lib) evs rc"

text \<open>A completion that records under the label set \<open>l\<close>.\<close>

fun completes :: "labels \<Rightarrow> event \<Rightarrow> bool" where
  "completes l (RequestCompleted start finish rq rs) = (labelsOf rq rs = Inr l)"
| "completes l _ = False"

section \<open>Example inputs\<close>

text \<open>
  A clock that reads 300001000 ns at completion, a fresh recorder and a fresh response;
  the request of the specification's example,
  \<^verbatim>\<open>GET /bookings/507f1f77bcf86cd799439011\<close>, when it arrives and when the route
  \<^verbatim>\<open>/bookings/:id\<close> has answered it with status 404; and a request answered by a route that
  was registered with the regular expression \<^verbatim>\<open>^/bookings/[0-9]+$\<close>.
\<close>

definition example_clock :: "nat \<Rightarrow> 64 word" where
  "example_clock k = 300001000"

definition example_recorder :: recorder where
  "example_recorder = \<lparr>httpRequestDuration = [], httpRequestsTotal = (\<lambda>_. 0)\<rparr>"

definition example_response :: response where
  "example_response =
     \<lparr>statusCode = 200, headers = Map.empty, body = [], headersSent = False,
      finishListeners = []\<rparr>"

definition example_request :: request where
  "example_request =
     \<lparr>req_method = ''GET'', req_route = None,
      req_path = Some ''/bookings/507f1f77bcf86cd799439011''\<rparr>"

definition example_arrival :: world where
  "example_arrival =
     \<lparr>req = example_request, res = example_response, recorder = example_recorder,
      nextCalls = 0\<rparr>"

definition example_completion :: world where
  "example_completion =
     \<lparr>req = example_request\<lparr>req_route := Some (Str ''/bookings/:id'')\<rparr>,
      res = example_response
              \<lparr>statusCode := 404, headersSent := True,
               finishListeners := [RecordMetrics 1000]\<rparr>,
      recorder = example_recorder, nextCalls = 1\<rparr>"

definition regexp_arrival :: world where
  "regexp_arrival =
     \<lparr>req = \<lparr>req_method = ''GET'', req_route = None, req_path = Some ''/bookings/42''\<rparr>,
      res = example_response, recorder = example_recorder, nextCalls = 0\<rparr>"

definition regexp_completion :: world where
  "regexp_completion =
     \<lparr>req = \<lparr>req_method = ''GET'', req_route = Some (RegExp ''^/bookings/[0-9]+$''),
             req_path = Some ''/bookings/42''\<rparr>,
      res = example_response
              \<lparr>headersSent := True, finishListeners := [RecordMetrics 1000]\<rparr>,
      recorder = example_recorder, nextCalls = 1\<rparr>"

section \<open>Properties of the normalisation\<close>

text \<open>
  A slash and a colon are not hexadecimal, so no match runs across a slash and the
  placeholder never takes part in one.
\<close>

lemma hex_slash [simp]: "\<not> hex_char CHR ''/''"
  by (simp add: hex_char_def)

lemma hex_colon [simp]: "\<not> hex_char CHR '':''"
  by (simp add: hex_char_def)

lemma id_match_append:
  "id_match (c # cs @ CHR ''/'' # xs) = id_match (c # cs)"
proof (cases "24 \<le> length cs")
  case True
  then show ?thesis by simp
next
  case False
  then have "CHR ''/'' \<in> set (take 24 (cs @ CHR ''/'' # xs))"
    by (simp add: take_Cons' )
  then have "\<not> list_all hex_char (take 24 (cs @ CHR ''/'' # xs))"
    using hex_slash unfolding list_all_iff by blast
  with False show ?thesis by simp
qed

lemma normalizedRoute_append_slash:
  "normalizedRoute (pre @ CHR ''/'' # xs) = normalizedRoute pre @ normalizedRoute (CHR ''/'' # xs)"
proof (induction pre rule: normalizedRoute.induct)
  case 1
  then show ?case by simp
next
  case (2 c cs)
  show ?case
  proof (cases "id_match (c # cs)")
    case True
    then have len: "24 \<le> length cs" by simp
    from True have m: "id_match (c # cs @ CHR ''/'' # xs)" by (simp add: id_match_append del: id_match.simps)
    from len have d: "drop 24 (cs @ CHR ''/'' # xs) = drop 24 cs @ CHR ''/'' # xs" by simp
    have "normalizedRoute ((c # cs) @ CHR ''/'' # xs) = ''/:id'' @ normalizedRoute (drop 24 (cs @ CHR ''/'' # xs))"
      using m by (simp del: id_match.simps)
    also have "\<dots> = ''/:id'' @ normalizedRoute (drop 24 cs) @ normalizedRoute (CHR ''/'' # xs)"
      using "2.IH"(1)[OF True] d by simp
    also have "\<dots> = normalizedRoute (c # cs) @ normalizedRoute (CHR ''/'' # xs)"
      using True by (simp del: id_match.simps)
    finally show ?thesis .
  next
    case False
    then have m: "\<not> id_match (c # cs @ CHR ''/'' # xs)" by (simp add: id_match_append del: id_match.simps)
    have "normalizedRoute ((c # cs) @ CHR ''/'' # xs) = c # normalizedRoute (cs @ CHR ''/'' # xs)"
      using m by (simp del: id_match.simps)
    also have "\<dots> = c # normalizedRoute cs @ normalizedRoute (CHR ''/'' # xs)"
      using "2.IH"(2)[OF False] by simp
    also have "\<dots> = normalizedRoute (c # cs) @ normalizedRoute (CHR ''/'' # xs)"
      using False by (simp del: id_match.simps)
    finally show ?thesis .
  qed
qed

lemma normalizedRoute_length: "length (normalizedRoute p) \<le> length p"
proof (induction p rule: normalizedRoute.induct)
  case 1
  then show ?case by simp
next
  case (2 c cs)
  show ?case
  proof (cases "id_match (c # cs)")
    case True
    then have len: "24 \<le> length cs" by simp
    have "length (normalizedRoute (c # cs)) = 4 + length (normalizedRoute (drop 24 cs))"
      using True by (simp del: id_match.simps)
    also have "\<dots> \<le> 4 + length (drop 24 cs)" using "2.IH"(1)[OF True] by simp
    also have "\<dots> \<le> length (c # cs)" using len by simp
    finally show ?thesis .
  next
    case False
    then show ?thesis using "2.IH"(2)[OF False] by (simp del: id_match.simps)
  qed
qed

lemma normalizedRoute_match_shorter:
  assumes "id_match (c # cs)"
  shows "length (normalizedRoute (c # cs)) < length (c # cs)"
proof -
  from assms have len: "24 \<le> length cs" by simp
  have "length (normalizedRoute (c # cs)) = 4 + length (normalizedRoute (drop 24 cs))"
    using assms by (simp del: id_match.simps)
  also have "\<dots> \<le> 4 + length (drop 24 cs)" using normalizedRoute_length[of "drop 24 cs"] by simp
  also have "\<dots> < length (c # cs)" using len by simp
  finally show ?thesis .
qed

lemma normalizedRoute_verbatim_iff:
  "normalizedRoute p = p \<longleftrightarrow> (\<forall>i<length p. \<not> id_match (drop i p))"
proof (induction p)
  case Nil
  then show ?case by simp
next
  case (Cons c cs)
  have split: "(\<forall>i<length (c # cs). \<not> id_match (drop i (c # cs)))
      \<longleftrightarrow> \<not> id_match (c # cs) \<and> (\<forall>i<length cs. \<not> id_match (drop i cs))"
    by (auto simp del: id_match.simps simp: less_Suc_eq_0_disj)
  show ?case
  proof (cases "id_match (c # cs)")
    case True
    from normalizedRoute_match_shorter[OF True] have "normalizedRoute (c # cs) \<noteq> c # cs"
      by (metis less_irrefl)
    with True split show ?thesis by blast
  next
    case False
    then have "normalizedRoute (c # cs) = c # normalizedRoute cs" by (simp del: id_match.simps)
    with False split Cons.IH show ?thesis by simp
  qed
qed

lemma hex_prefix_kept:
  "n \<le> length (normalizedRoute cs) \<Longrightarrow> list_all hex_char (take n (normalizedRoute cs))
     \<Longrightarrow> n \<le> length cs \<and> take n cs = take n (normalizedRoute cs)"
proof (induction n arbitrary: cs)
  case 0
  then show ?case by simp
next
  case (Suc n)
  show ?case
  proof (cases cs)
    case Nil
    with Suc.prems show ?thesis by simp
  next
    case (Cons d ds)
    show ?thesis
    proof (cases "id_match (d # ds)")
      case True
      then have "normalizedRoute cs = ''/:id'' @ normalizedRoute (drop 24 ds)"
        using Cons by (simp del: id_match.simps)
      with Suc.prems(2) show ?thesis by simp
    next
      case False
      then have eq: "normalizedRoute cs = d # normalizedRoute ds"
        using Cons by (simp del: id_match.simps)
      with Suc.prems have "n \<le> length (normalizedRoute ds)" "list_all hex_char (take n (normalizedRoute ds))"
        by simp_all
      from Suc.IH[OF this] eq Cons show ?thesis by simp
    qed
  qed
qed

lemma id_match_after_normalize:
  assumes "id_match (c # normalizedRoute cs)"
  shows "id_match (c # cs)"
proof -
  from assms have a: "c = CHR ''/''" "24 \<le> length (normalizedRoute cs)"
    "list_all hex_char (take 24 (normalizedRoute cs))" by simp_all
  from hex_prefix_kept[OF a(2) a(3)] a show ?thesis by simp
qed

lemma has_id_match_iff: "has_id_match p \<longleftrightarrow> (\<exists>i<length p. id_match (drop i p))"
proof (induction p)
  case Nil
  then show ?case by simp
next
  case (Cons c cs)
  have "(\<exists>i<length (c # cs). id_match (drop i (c # cs)))
      \<longleftrightarrow> id_match (c # cs) \<or> (\<exists>i<length cs. id_match (drop i cs))"
    by (auto simp del: id_match.simps simp: less_Suc_eq_0_disj)
  with Cons.IH show ?case by (simp del: id_match.simps)
qed

lemma normalizedRoute_id_segment:
  assumes "id_segment seg"
  shows "normalizedRoute (CHR ''/'' # seg @ rest) = ''/:id'' @ normalizedRoute rest"
proof -
  from assms have "id_match (CHR ''/'' # seg @ rest)"
    by (simp add: id_segment_def)
  moreover from assms have "drop 24 (seg @ rest) = rest"
    by (simp add: id_segment_def)
  ultimately show ?thesis by (simp del: id_match.simps)
qed

text \<open>
  Claim C2, as the code has it. Every slash followed by 24 hexadecimal characters is
  replaced, together with those characters, by \<^verbatim>\<open>/:id\<close>, whatever precedes and whatever
  follows, also more hexadecimal characters of the same segment; a path is recorded
  verbatim exactly when no slash in it is followed by 24 hexadecimal characters; and
  \<^verbatim>\<open>/bookings/507f1f77bcf86cd799439011\<close> normalises to \<^verbatim>\<open>/bookings/:id\<close>.
\<close>

theorem normalizedRoute_replaces:
  "(id_segment seg \<longrightarrow>
      normalizedRoute (pre @ CHR ''/'' # seg @ rest)
        = normalizedRoute pre @ ''/:id'' @ normalizedRoute rest)
   \<and> (normalizedRoute p = p \<longleftrightarrow> \<not> has_id_match p)
   \<and> normalizedRoute ''/bookings/507f1f77bcf86cd799439011'' = ''/bookings/:id''"
proof (intro conjI impI)
  assume "id_segment seg"
  then show "normalizedRoute (pre @ CHR ''/'' # seg @ rest)
        = normalizedRoute pre @ ''/:id'' @ normalizedRoute rest"
    by (simp only: normalizedRoute_append_slash normalizedRoute_id_segment)
next
  show "normalizedRoute p = p \<longleftrightarrow> \<not> has_id_match p"
    by (simp only: normalizedRoute_verbatim_iff has_id_match_iff not_ex not_less) (metis not_less)
next
  show "normalizedRoute ''/bookings/507f1f77bcf86cd799439011'' = ''/bookings/:id''"
    by (simp add: hex_char_def)
qed

text \<open>The theorem at the paths \<^verbatim>\<open>/bookings/507f1f77bcf86cd799439011/seats\<close> and \<^verbatim>\<open>/health\<close>.\<close>

theorem normalizedRoute_replaces_witness:
  "id_segment ''507f1f77bcf86cd799439011''
   \<and> normalizedRoute ''/bookings/507f1f77bcf86cd799439011/seats'' = ''/bookings/:id/seats''
   \<and> \<not> has_id_match ''/health''
   \<and> normalizedRoute ''/health'' = ''/health''"
proof -
  have seg: "id_segment ''507f1f77bcf86cd799439011''"
    by (simp add: id_segment_def hex_char_def)
  have no: "\<not> has_id_match ''/health''"
    by simp
  have short: "normalizedRoute ''/bookings'' = ''/bookings''" "normalizedRoute ''/seats'' = ''/seats''"
    by simp_all
  from normalizedRoute_replaces [of "''507f1f77bcf86cd799439011''" "''/bookings''" "''/seats''" "''/health''"]
    seg no short
  show ?thesis by simp
qed

text \<open>
  Claim C2 as the specification states it fails on its second half: the path
  \<^verbatim>\<open>/bookings/507f1f77bcf86cd799439011a\<close> has no segment of exactly 24 hexadecimal
  characters (its last segment has 25), and it is not recorded verbatim: the pattern is
  not anchored at the end of the segment.
\<close>

theorem normalizedRoute_longer_segment:
  "\<not> list_ex id_segment (segments ''/bookings/507f1f77bcf86cd799439011a'')
   \<and> normalizedRoute ''/bookings/507f1f77bcf86cd799439011a'' = ''/bookings/:ida''"
  by (simp add: id_segment_def hex_char_def)

text \<open>
  Claim C9: the normalisation is idempotent. Normalising a route twice gives the same
  label as normalising it once.
\<close>

theorem normalizedRoute_idempotent: "normalizedRoute (normalizedRoute s) = normalizedRoute s"
proof (induction s rule: normalizedRoute.induct)
  case 1
  then show ?case by simp
next
  case (2 c cs)
  show ?case
  proof (cases "id_match (c # cs)")
    case True
    then have "normalizedRoute (c # cs) = ''/:id'' @ normalizedRoute (drop 24 cs)"
      by (simp del: id_match.simps)
    moreover have "normalizedRoute (''/:id'' @ normalizedRoute (drop 24 cs))
        = ''/:id'' @ normalizedRoute (normalizedRoute (drop 24 cs))"
      by simp
    ultimately show ?thesis using "2.IH"(1)[OF True] by simp
  next
    case False
    then have eq: "normalizedRoute (c # cs) = c # normalizedRoute cs" by (simp del: id_match.simps)
    from False id_match_after_normalize have "\<not> id_match (c # normalizedRoute cs)" by blast
    then have "normalizedRoute (c # normalizedRoute cs) = c # normalizedRoute (normalizedRoute cs)"
      by (simp del: id_match.simps)
    with eq "2.IH"(2)[OF False] show ?thesis by simp
  qed
qed

section \<open>The route label before normalisation\<close>

text \<open>
  Claim C3, as the code has it. The route label is the matched route pattern when there is
  one and it is not the empty string; otherwise the raw request path when there is one
  and it is not the empty string; otherwise the literal \<^verbatim>\<open>unknown\<close>.
\<close>

theorem routeLabel_fallback:
  "(req_route rq = Some r \<and> r \<noteq> Str [] \<longrightarrow> routeLabel rq = r)
   \<and> ((req_route rq = None \<or> req_route rq = Some (Str [])) \<and> req_path rq = Some p \<and> p \<noteq> []
        \<longrightarrow> routeLabel rq = Str p)
   \<and> ((req_route rq = None \<or> req_route rq = Some (Str []))
        \<and> (req_path rq = None \<or> req_path rq = Some [])
        \<longrightarrow> routeLabel rq = Str ''unknown'')"
proof (intro conjI impI)
  assume "req_route rq = Some r \<and> r \<noteq> Str []"
  then show "routeLabel rq = r"
    by (cases r) (simp_all add: routeLabel_def)
qed (auto simp: routeLabel_def)

text \<open>
  The theorem on a request with a matched pattern, on one with a raw path only, and on one
  with neither.
\<close>

theorem routeLabel_fallback_witness:
  "routeLabel \<lparr>req_method = ''GET'', req_route = Some (Str ''/bookings/:id''),
                req_path = Some ''/bookings/507f1f77bcf86cd799439011''\<rparr> = Str ''/bookings/:id''
   \<and> routeLabel \<lparr>req_method = ''GET'', req_route = None, req_path = Some ''/missing''\<rparr>
        = Str ''/missing''
   \<and> routeLabel \<lparr>req_method = ''GET'', req_route = None, req_path = None\<rparr> = Str ''unknown''"
  using routeLabel_fallback
          [of "\<lparr>req_method = ''GET'', req_route = Some (Str ''/bookings/:id''),
                req_path = Some ''/bookings/507f1f77bcf86cd799439011''\<rparr>"
              "Str ''/bookings/:id''" "''x''"]
        routeLabel_fallback
          [of "\<lparr>req_method = ''GET'', req_route = None, req_path = Some ''/missing''\<rparr>"
              "Str ''x''" "''/missing''"]
        routeLabel_fallback
          [of "\<lparr>req_method = ''GET'', req_route = None, req_path = None\<rparr>" "Str ''x''" "''x''"]
  by simp

text \<open>
  Claim C3 as the specification states it fails where the routing layer resolved the empty
  pattern (a route registered under the path \<^verbatim>\<open>''\<close>, which answers \<^verbatim>\<open>/\<close>): the operator
  \<^verbatim>\<open>||\<close> takes the empty string for absent, and the label is the raw path.
\<close>

theorem routeLabel_empty_pattern:
  "routeLabel_spec \<lparr>req_method = ''GET'', req_route = Some (Str []), req_path = Some ''/''\<rparr>
     = Str []
   \<and> routeLabel \<lparr>req_method = ''GET'', req_route = Some (Str []), req_path = Some ''/''\<rparr>
     = Str ''/''"
  by (simp add: routeLabel_def routeLabel_spec_def)

section \<open>Rounding to double precision\<close>

text \<open>
  Rounding to an integer moves a number by at most one half and leaves integers alone.
\<close>

lemma roundTiesToEven_error: "\<bar>of_int (roundTiesToEven y) - y\<bar> \<le> 1 / 2"
proof -
  have "of_int \<lfloor>y\<rfloor> \<le> y" "y < of_int \<lfloor>y\<rfloor> + 1" by linarith+
  then show ?thesis
    unfolding roundTiesToEven_def Let_def by (auto simp: abs_if) linarith+
qed

lemma roundTiesToEven_of_int: "roundTiesToEven (of_int n) = n"
  by (simp add: roundTiesToEven_def)

text \<open>The binade is what its definition says: \<open>2\<^sup>e \<le> x < 2\<^sup>e\<^sup>+\<^sup>1\<close>.\<close>

lemma binade_le:
  assumes "0 < x"
  shows "2 powi binade x \<le> x"
proof -
  obtain p q where pq: "quotient_of x = (p, q)" by (cases "quotient_of x")
  then have q: "0 < q" and x: "x = of_int p / of_int q"
    by (simp_all add: quotient_of_denom_pos quotient_of_div)
  with assms have p: "0 < p" by (simp add: zero_less_divide_iff)
  let ?d = "bitlen p - bitlen q"
  show ?thesis
  proof (cases "2 powi ?d \<le> x")
    case True
    then show ?thesis by (simp add: binade_def pq)
  next
    case False
    from bitlen_bounds[OF p] have lp: "(2::int) ^ nat (bitlen p - 1) \<le> p" by simp
    from bitlen_bounds[OF q] have uq: "q < (2::int) ^ nat (bitlen q)" by simp
    have bp: "1 \<le> bitlen p" using p bitlen_eq_zero_iff[of p] bitlen_nonneg[of p] by linarith
    have bq: "0 \<le> bitlen q" by (rule bitlen_nonneg)
    have lp': "(2::rat) powi (bitlen p - 1) \<le> of_int p"
    proof -
      have "(2::rat) powi (bitlen p - 1) = 2 ^ nat (bitlen p - 1)"
        using bp by (simp add: power_int_def)
      also have "\<dots> = of_int (2 ^ nat (bitlen p - 1))" by simp
      also have "\<dots> \<le> of_int p" using lp by (simp only: of_int_le_iff)
      finally show ?thesis .
    qed
    have uq': "of_int q \<le> (2::rat) powi bitlen q"
    proof -
      have "q \<le> 2 ^ nat (bitlen q)" using uq by simp
      then have "(of_int q :: rat) \<le> of_int (2 ^ nat (bitlen q))" by (simp only: of_int_le_iff)
      also have "\<dots> = 2 powi bitlen q" using bq by (simp add: power_int_def)
      finally show ?thesis .
    qed
    have "(2::rat) powi (?d - 1) = 2 powi (bitlen p - 1) / 2 powi bitlen q"
      by (simp add: power_int_diff)
    also have "\<dots> \<le> of_int p / 2 powi bitlen q"
      using lp' by (simp add: divide_right_mono)
    also have "\<dots> \<le> of_int p / of_int q"
      using uq' p q by (simp add: frac_le)
    finally have "(2::rat) powi (?d - 1) \<le> x" using x by simp
    with False show ?thesis by (simp add: binade_def pq)
  qed
qed

lemma binade_less:
  assumes "0 < x"
  shows "x < 2 powi (binade x + 1)"
proof -
  obtain p q where pq: "quotient_of x = (p, q)" by (cases "quotient_of x")
  then have q: "0 < q" and x: "x = of_int p / of_int q"
    by (simp_all add: quotient_of_denom_pos quotient_of_div)
  with assms have p: "0 < p" by (simp add: zero_less_divide_iff)
  let ?d = "bitlen p - bitlen q"
  show ?thesis
  proof (cases "2 powi ?d \<le> x")
    case True
    from bitlen_bounds[OF p] have up: "p < (2::int) ^ nat (bitlen p)" by simp
    from bitlen_bounds[OF q] have lq: "(2::int) ^ nat (bitlen q - 1) \<le> q" by simp
    have bq: "1 \<le> bitlen q" using q bitlen_eq_zero_iff[of q] bitlen_nonneg[of q] by linarith
    have bp: "0 \<le> bitlen p" by (rule bitlen_nonneg)
    have up': "of_int p < (2::rat) powi bitlen p"
    proof -
      have "(of_int p :: rat) < of_int (2 ^ nat (bitlen p))" using up by (simp only: of_int_less_iff)
      also have "\<dots> = 2 powi bitlen p" using bp by (simp add: power_int_def)
      finally show ?thesis .
    qed
    have lq': "(2::rat) powi (bitlen q - 1) \<le> of_int q"
    proof -
      have "(2::rat) powi (bitlen q - 1) = of_int (2 ^ nat (bitlen q - 1))"
        using bq by (simp add: power_int_def)
      also have "\<dots> \<le> of_int q" using lq by (simp only: of_int_le_iff)
      finally show ?thesis .
    qed
    have pos: "(0::rat) < 2 powi (bitlen q - 1)" by simp
    have b: "binade x = ?d" using True by (simp add: binade_def pq)
    note x
    also have "of_int p / of_int q \<le> of_int p / (2::rat) powi (bitlen q - 1)"
      using lq' p pos by (simp add: frac_le)
    also have "\<dots> < 2 powi bitlen p / 2 powi (bitlen q - 1)"
      using up' pos by (simp add: divide_strict_right_mono)
    also have "\<dots> = 2 powi (?d + 1)"
      by (simp add: power_int_diff power_int_add)
    finally show ?thesis by (simp only: b)
  next
    case False
    then show ?thesis by (simp add: binade_def pq)
  qed
qed

text \<open>
  One rounding has a relative error of at most \<open>2\<^sup>-\<^sup>5\<^sup>3\<close>; integers below \<open>2\<^sup>5\<^sup>3\<close> are
  doubles; the two roundings of \<^verbatim>\<open>Number(end - start) / 1e9\<close> stay within \<open>2\<^sup>-\<^sup>5\<^sup>1\<close>.
\<close>

lemma toDouble_error: "\<bar>toDouble x - x\<bar> \<le> \<bar>x\<bar> / 2 ^ 53"
proof (cases "x = 0")
  case True
  then show ?thesis by (simp add: toDouble_def)
next
  case False
  define a where "a = \<bar>x\<bar>"
  define u :: rat where "u = 2 powi (binade a - 52)"
  define m where "m = roundTiesToEven (a / u)"
  from False have a: "0 < a" by (simp add: a_def)
  have u: "0 < u" by (simp add: u_def)
  have td: "toDouble x = sgn x * of_int m * u"
    using False by (simp add: toDouble_def Let_def a_def u_def m_def)
  have xs: "x = sgn x * a" by (simp add: a_def sgn_mult_abs)
  have "toDouble x - x = sgn x * (of_int m * u - a)"
    using td xs by (metis mult.assoc right_diff_distrib)
  then have "\<bar>toDouble x - x\<bar> = \<bar>of_int m * u - a\<bar>"
    using False by (simp add: abs_mult abs_sgn_eq)
  also have "of_int m * u - a = (of_int m - a / u) * u"
    using u by (simp add: field_simps)
  also have "\<bar>\<dots>\<bar> = \<bar>of_int m - a / u\<bar> * u" using u by (simp add: abs_mult)
  also have "\<dots> \<le> (1 / 2) * u"
    using roundTiesToEven_error[of "a / u"] u unfolding m_def by (intro mult_right_mono) simp_all
  also have "(1 / 2) * u = 2 powi binade a / 2 ^ 53"
    by (simp add: u_def power_int_diff)
  also have "\<dots> \<le> a / 2 ^ 53"
    using binade_le[OF a] by (simp add: divide_right_mono)
  finally show ?thesis by (simp add: a_def)
qed

lemma toDouble_of_int:
  assumes "\<bar>d\<bar> < 2 ^ 53"
  shows "toDouble (of_int d) = of_int d"
proof (cases "d = 0")
  case True
  then show ?thesis by (simp add: toDouble_def)
next
  case False
  define a :: rat where "a = \<bar>of_int d\<bar>"
  from False have a: "0 < a" by (simp add: a_def)
  have a_int: "a = of_int \<bar>d\<bar>" by (simp add: a_def)
  have "a < 2 ^ 53"
  proof -
    have "(of_int \<bar>d\<bar> :: rat) < of_int (2 ^ 53)" using assms by (simp only: of_int_less_iff)
    then show ?thesis by (simp add: a_int)
  qed
  with binade_le[OF a] have "(2::rat) powi binade a < 2 ^ 53" by simp
  also have "(2::rat) ^ 53 = 2 powi 53" by (simp add: power_int_def)
  finally have "binade a < 53"
    by (rule power_int_le_imp_less_exp[rotated]) simp_all
  then have e: "binade a \<le> 52" by simp
  define k where "k = nat (52 - binade a)"
  have u: "(2::rat) powi (binade a - 52) = 1 / 2 ^ k"
    using e by (simp add: k_def power_int_def field_simps) 
  have "a * 2 ^ k = of_int (\<bar>d\<bar> * 2 ^ k)" by (simp add: a_int)
  then have m: "roundTiesToEven (a * 2 ^ k) = \<bar>d\<bar> * 2 ^ k"
    by (simp only: roundTiesToEven_of_int)
  have "toDouble (of_int d) = sgn (of_int d) * of_int (roundTiesToEven (a * 2 ^ k)) / 2 ^ k"
    using False by (simp add: toDouble_def Let_def a_def[symmetric] u)
  also have "\<dots> = sgn (of_int d) * of_int (\<bar>d\<bar> * 2 ^ k) / 2 ^ k"
    by (simp only: m)
  also have "\<dots> = sgn (of_int d) * a" by (simp add: a_int)
  also have "\<dots> = of_int d" by (simp add: a_def sgn_mult_abs)
  finally show ?thesis .
qed

lemma toDouble_twice_error:
  fixes D :: rat
  shows "\<bar>toDouble (toDouble D / 1000000000) - D / 1000000000\<bar> \<le> \<bar>D / 1000000000\<bar> / 2 ^ 51"
proof -
  define N where "N = toDouble D"
  define c :: rat where "c = 1000000000"
  have c: "0 < c" by (simp add: c_def)
  have e1: "\<bar>N - D\<bar> \<le> \<bar>D\<bar> / 2 ^ 53" unfolding N_def by (rule toDouble_error)
  have e2: "\<bar>toDouble (N / c) - N / c\<bar> \<le> \<bar>N / c\<bar> / 2 ^ 53" by (rule toDouble_error)
  have n: "\<bar>N\<bar> \<le> \<bar>D\<bar> + \<bar>D\<bar> / 2 ^ 53" using e1 by linarith
  have "\<bar>N / c\<bar> = \<bar>N\<bar> / c" using c by (simp add: abs_divide)
  also have "\<dots> \<le> (\<bar>D\<bar> + \<bar>D\<bar> / 2 ^ 53) / c"
    by (rule divide_right_mono[OF n]) (use c in simp)
  finally have n': "\<bar>N / c\<bar> \<le> (\<bar>D\<bar> + \<bar>D\<bar> / 2 ^ 53) / c" .
  have "\<bar>N / c - D / c\<bar> = \<bar>N - D\<bar> / c" using c by (simp add: abs_divide flip: diff_divide_distrib)
  also have "\<dots> \<le> (\<bar>D\<bar> / 2 ^ 53) / c"
    by (rule divide_right_mono[OF e1]) (use c in simp)
  finally have d1: "\<bar>N / c - D / c\<bar> \<le> (\<bar>D\<bar> / 2 ^ 53) / c" .
  have "\<bar>toDouble (N / c) - D / c\<bar> \<le> \<bar>toDouble (N / c) - N / c\<bar> + \<bar>N / c - D / c\<bar>" by linarith
  also have "\<dots> \<le> ((\<bar>D\<bar> + \<bar>D\<bar> / 2 ^ 53) / c) / 2 ^ 53 + (\<bar>D\<bar> / 2 ^ 53) / c"
  proof (rule add_mono)
    have "\<bar>N / c\<bar> / 2 ^ 53 \<le> ((\<bar>D\<bar> + \<bar>D\<bar> / 2 ^ 53) / c) / 2 ^ 53"
      by (rule divide_right_mono[OF n']) simp
    with e2 show "\<bar>toDouble (N / c) - N / c\<bar> \<le> ((\<bar>D\<bar> + \<bar>D\<bar> / 2 ^ 53) / c) / 2 ^ 53"
      by (rule order_trans)
    show "\<bar>N / c - D / c\<bar> \<le> (\<bar>D\<bar> / 2 ^ 53) / c" by (rule d1)
  qed
  also have "\<dots> = (\<bar>D\<bar> / c) * ((2 + 1 / 2 ^ 53) / 2 ^ 53)" by (simp add: field_simps)
  also have "\<dots> \<le> (\<bar>D\<bar> / c) * (1 / 2 ^ 51)"
    using c by (intro mult_left_mono) simp_all
  finally show ?thesis using c by (simp add: N_def c_def abs_divide)
qed

text \<open>The difference of two clock readings is below \<open>2\<^sup>6\<^sup>4\<close> in magnitude.\<close>

lemma reading_difference_bound: "\<bar>uint (finish :: 64 word) - uint (start :: 64 word)\<bar> < 2 ^ 64"
proof -
  have "0 \<le> uint finish" "uint finish < 2 ^ 64" "0 \<le> uint start" "uint start < 2 ^ 64"
    using uint_bounded[of finish] uint_bounded[of start] by simp_all
  then show ?thesis by linarith
qed

section \<open>The completion callback\<close>

text \<open>
  A response that went through the middleware once carries one listener, and its event
  \<^verbatim>\<open>finish\<close> runs the body of that listener once. When the route label is a string the
  listener records one observation and one increment under the label set of the request;
  when line 47 throws it records nothing.
\<close>

lemma labelsOf_Str:
  "routeLabel rq = Str s \<Longrightarrow>
     labelsOf rq rs = Inr \<lparr>lbl_method = req_method rq, lbl_route = normalizedRoute s,
                            lbl_status = toString (statusCode rs)\<rparr>"
  by (simp add: labelsOf_def)

lemma onFinish_Inl:
  "labelsOf (req w) (res w) = Inl e \<Longrightarrow> onFinish start finish w = (w, Some e)"
  by (simp add: onFinish_def)

lemma onFinish_Inr:
  "labelsOf (req w) (res w) = Inr l \<Longrightarrow>
     onFinish start finish w
       = (w\<lparr>recorder := (recorder w)
              \<lparr>httpRequestDuration :=
                   httpRequestDuration (recorder w) @ [(l, durationInSeconds start finish)],
               httpRequestsTotal :=
                   (httpRequestsTotal (recorder w))(l := httpRequestsTotal (recorder w) l + 1)\<rparr>\<rparr>,
          None)"
  by (simp add: onFinish_def Let_def observe_def inc_def)

lemma responseFinished_instrumented:
  assumes "finishListeners (res w0) = []"
      and "finishListeners (res w) = finishListeners (res (metricsMiddleware start w0))"
  shows "responseFinished hrtime w = onFinish start (hrtime 0) w"
proof -
  from assms have "finishListeners (res w) = [RecordMetrics start]"
    by (simp add: metricsMiddleware_def)
  then show ?thesis
    by (cases "onFinish start (hrtime 0) w") (auto simp: responseFinished_def split: option.splits)
qed

lemma onFinish_counter:
  "httpRequestsTotal (recorder (fst (onFinish start finish w))) l
     = httpRequestsTotal (recorder w) l + (if labelsOf (req w) (res w) = Inr l then 1 else 0)"
  by (cases "labelsOf (req w) (res w)") (simp_all add: onFinish_Inl onFinish_Inr)


lemma metricsHandler_recorder: "recorder (fst (metricsHandler lib w)) = recorder w"
  by (simp add: metricsHandler_def Let_def split: sum.splits)

lemma instrumented_completion:
  assumes "finishListeners (res w0) = []"
      and "finishListeners (res w) = finishListeners (res (metricsMiddleware start w0))"
      and "routeLabel (req w) = Str s"
  shows "httpRequestDuration (recorder (fst (responseFinished hrtime w)))
           = httpRequestDuration (recorder w)
               @ [(\<lparr>lbl_method = req_method (req w), lbl_route = normalizedRoute s,
                    lbl_status = toString (statusCode (res w))\<rparr>,
                   durationInSeconds start (hrtime 0))]"
    and "snd (responseFinished hrtime w) = None"
  using responseFinished_instrumented[OF assms(1,2)] onFinish_Inr[OF labelsOf_Str[OF assms(3)]]
  by simp_all

text \<open>
  Claim C1 says that every completed request records exactly one observation and one
  increment. The code does not on a request answered by a route that was registered with a
  regular expression: \<^verbatim>\<open>req.route.path\<close> is that expression, line 46 takes it because it
  is truthy, line 47 throws, and the response completes with the histogram and the counter
  as they were, here empty and zero.
\<close>

theorem regexp_route_records_nothing:
  "finishListeners (res regexp_arrival) = []
   \<and> finishListeners (res regexp_completion)
        = finishListeners (res (metricsMiddleware 1000 regexp_arrival))
   \<and> recorder (fst (responseFinished example_clock regexp_completion))
        = recorder regexp_completion
   \<and> httpRequestDuration (recorder (fst (responseFinished example_clock regexp_completion))) = []
   \<and> httpRequestsTotal (recorder (fst (responseFinished example_clock regexp_completion)))
        \<lparr>lbl_method = ''GET'', lbl_route = ''/bookings/42'', lbl_status = ''200''\<rparr> = 0"
  by (simp add: regexp_arrival_def regexp_completion_def example_response_def
      example_recorder_def metricsMiddleware_def responseFinished_def onFinish_def
      labelsOf_def routeLabel_def)

text \<open>
  Claim C4 says that the middleware's effects stay within the metric registry. On the same
  request the listener leaves the event \<^verbatim>\<open>finish\<close> with a TypeError that nothing in the
  module catches: the exception reaches the host process.
\<close>

theorem regexp_route_listener_throws:
  "snd (responseFinished example_clock regexp_completion)
     = Some (TypeError ''route.replace is not a function'')"
  by (simp add: regexp_completion_def example_response_def responseFinished_def onFinish_def
      labelsOf_def routeLabel_def)

text \<open>
  Claim C7, as the code has it. The clock reading taken when the middleware runs is the
  one the listener holds. When the listener records, the value it observes is
  \<^verbatim>\<open>Number(end - start) / 1e9\<close> in double precision: the elapsed nanoseconds rounded to a
  double, divided by \<open>10\<^sup>9\<close> and rounded to a double. It lies within a relative error of
  \<open>2\<^sup>-\<^sup>5\<^sup>1\<close> of the elapsed time in seconds; when fewer than \<open>2\<^sup>5\<^sup>3\<close> nanoseconds elapsed it is
  the double nearest to the elapsed seconds, within \<open>2\<^sup>-\<^sup>5\<^sup>3\<close>.
\<close>

theorem observed_duration:
  assumes "finishListeners (res w0) = []"
      and "finishListeners (res w) = finishListeners (res (metricsMiddleware start w0))"
      and "routeLabel (req w) = Str s"
  shows "map snd (httpRequestDuration (recorder (fst (responseFinished hrtime w))))
           = map snd (httpRequestDuration (recorder w)) @ [durationInSeconds start (hrtime 0)]
       \<and> durationInSeconds start (hrtime 0)
           = toDouble (toDouble (of_int (uint (hrtime 0) - uint start)) / 1000000000)
       \<and> \<bar>durationInSeconds start (hrtime 0) - of_int (uint (hrtime 0) - uint start) / 1000000000\<bar>
           \<le> \<bar>of_int (uint (hrtime 0) - uint start) / 1000000000\<bar> / 2 ^ 51
       \<and> (\<bar>uint (hrtime 0) - uint start\<bar> < 2 ^ 53 \<longrightarrow>
            durationInSeconds start (hrtime 0)
              = toDouble (of_int (uint (hrtime 0) - uint start) / 1000000000)
            \<and> \<bar>durationInSeconds start (hrtime 0)
                 - of_int (uint (hrtime 0) - uint start) / 1000000000\<bar>
               \<le> \<bar>of_int (uint (hrtime 0) - uint start) / 1000000000\<bar> / 2 ^ 53)"
proof (intro conjI impI)
  show "map snd (httpRequestDuration (recorder (fst (responseFinished hrtime w))))
           = map snd (httpRequestDuration (recorder w)) @ [durationInSeconds start (hrtime 0)]"
    by (simp add: instrumented_completion(1)[OF assms])
  show "durationInSeconds start (hrtime 0)
           = toDouble (toDouble (of_int (uint (hrtime 0) - uint start)) / 1000000000)"
    by (simp add: durationInSeconds_def)
  show "\<bar>durationInSeconds start (hrtime 0) - of_int (uint (hrtime 0) - uint start) / 1000000000\<bar>
           \<le> \<bar>of_int (uint (hrtime 0) - uint start) / 1000000000\<bar> / 2 ^ 51"
    unfolding durationInSeconds_def by (rule toDouble_twice_error)
next
  assume small: "\<bar>uint (hrtime 0) - uint start\<bar> < 2 ^ 53"
  then show exact: "durationInSeconds start (hrtime 0)
              = toDouble (of_int (uint (hrtime 0) - uint start) / 1000000000)"
    by (simp only: durationInSeconds_def toDouble_of_int)
  show "\<bar>durationInSeconds start (hrtime 0)
                 - of_int (uint (hrtime 0) - uint start) / 1000000000\<bar>
               \<le> \<bar>of_int (uint (hrtime 0) - uint start) / 1000000000\<bar> / 2 ^ 53"
    unfolding exact by (rule toDouble_error)
qed

text \<open>
  The theorem on the example request, completed 300 milliseconds after it began: the
  observed value is the double nearest to 3/10.
\<close>

theorem observed_duration_witness:
  "finishListeners (res example_arrival) = []
   \<and> finishListeners (res example_completion)
        = finishListeners (res (metricsMiddleware 1000 example_arrival))
   \<and> routeLabel (req example_completion) = Str ''/bookings/:id''
   \<and> \<bar>uint (example_clock 0) - uint (1000 :: 64 word)\<bar> < 2 ^ 53
   \<and> map snd (httpRequestDuration
                 (recorder (fst (responseFinished example_clock example_completion))))
        = [5404319552844595 / 18014398509481984]
   \<and> \<bar>5404319552844595 / 18014398509481984 - 3 / (10 :: rat)\<bar> \<le> (3 / 10) / 2 ^ 53"
proof -
  have a: "finishListeners (res example_arrival) = []"
    by (simp add: example_arrival_def example_response_def)
  have b: "finishListeners (res example_completion)
        = finishListeners (res (metricsMiddleware 1000 example_arrival))"
    by (simp add: example_completion_def example_arrival_def example_response_def
        metricsMiddleware_def)
  have c: "routeLabel (req example_completion) = Str ''/bookings/:id''"
    by (simp add: example_completion_def example_request_def routeLabel_def)
  have d: "\<bar>uint (example_clock 0) - uint (1000 :: 64 word)\<bar> < 2 ^ 53"
    by (simp add: example_clock_def)
  have v: "durationInSeconds 1000 300001000 = 5404319552844595 / 18014398509481984"
    by (simp add: durationInSeconds_def) code_simp
  have r: "httpRequestDuration (recorder example_completion) = []"
    by (simp add: example_completion_def example_recorder_def)
  note t = observed_duration [OF a b c, of example_clock]
  have obs: "map snd (httpRequestDuration
                 (recorder (fst (responseFinished example_clock example_completion))))
        = [5404319552844595 / 18014398509481984]"
    using t [THEN conjunct1] by (simp add: r v example_clock_def)
  have err: "\<bar>5404319552844595 / 18014398509481984 - 3 / (10 :: rat)\<bar> \<le> (3 / 10) / 2 ^ 53"
    using t [THEN conjunct2, THEN conjunct2, THEN conjunct2] d
    by (simp add: v example_clock_def)
  from a b c d obs err show ?thesis by (simp only: simp_thms)
qed

text \<open>
  Claim C7 as the specification states it fails: when the listener that holds the start
  reading 1000 runs at the reading 1001, one nanosecond later, the observed value is the
  double nearest to \<open>10\<^sup>-\<^sup>9\<close>, which is not \<open>10\<^sup>-\<^sup>9\<close>.
\<close>

theorem observed_duration_one_nanosecond:
  "map snd (httpRequestDuration (recorder (fst (onFinish 1000 1001 example_completion))))
     = [4835703278458517 / 4835703278458516698824704]
   \<and> (4835703278458517 / 4835703278458516698824704 :: rat)
        \<noteq> of_int (uint (1001 :: 64 word) - uint (1000 :: 64 word)) / 1000000000"
proof -
  have v: "durationInSeconds 1000 1001 = 4835703278458517 / 4835703278458516698824704"
    by (simp add: durationInSeconds_def) code_simp
  have l: "labelsOf (req example_completion) (res example_completion)
        = Inr \<lparr>lbl_method = ''GET'', lbl_route = ''/bookings/:id'', lbl_status = ''404''\<rparr>"
    by (simp add: labelsOf_def example_completion_def example_request_def
        example_response_def routeLabel_def toString.simps)
  have "map snd (httpRequestDuration (recorder (fst (onFinish 1000 1001 example_completion))))
     = [4835703278458517 / 4835703278458516698824704]"
    by (simp add: onFinish_Inr[OF l] v) (simp add: example_completion_def example_recorder_def)
  then show ?thesis by simp
qed

section \<open>The counter over sequences of events\<close>

lemma step_counter:
  "httpRequestsTotal (step lib ev rc) l
     = httpRequestsTotal rc l + (if completes l ev then 1 else 0)"
  by (cases ev) (simp_all add: metricsMiddleware_def metricsHandler_recorder onFinish_counter)


lemma run_counter:
  "httpRequestsTotal (run lib evs rc) l
     = httpRequestsTotal rc l + length (filter (completes l) evs)"
  unfolding run_def
proof (induction evs arbitrary: rc)
  case Nil
  then show ?case by simp
next
  case (Cons ev evs)
  then show ?case by (simp add: step_counter)
qed


text \<open>
  Claim C6. For every label set, the value of \<^verbatim>\<open>http_requests_total\<close> after a sequence of
  middleware runs, completions and scrapes is at most its value after any longer sequence
  that starts with it: no operation of the module decreases the counter.
\<close>

theorem counter_never_decreases:
  "httpRequestsTotal (run lib evs rc) l \<le> httpRequestsTotal (run lib (evs @ later) rc) l"
proof -
  have "run lib (evs @ later) rc = run lib later (run lib evs rc)"
    by (simp add: run_def)
  then show ?thesis by (simp add: run_counter)
qed


end
